theory Spec2Isabelle
  imports Main "HOL-Library.AList"
begin

section \<open>JavaScript values\<close>

text \<open>
  The client handles dynamically typed data: response bodies, records, filter objects.
  A value is one of the JSON shapes, or \<open>undefined\<close>. An object is the list of its own
  enumerable properties in the order \<open>Object.keys\<close> / \<open>Object.entries\<close> report them.
  Strings are lists of 8-bit characters (code units below 256).
\<close>

subsection \<open>Numbers\<close>

text \<open>
  A number of the program is a double. A finite one is written \<open>Dec m e\<close>, the decimal
  \<open>m\<close> times ten to the \<open>e\<close>, where this is the shortest decimal that denotes the double:
  \<open>m\<close> is not a multiple of ten, or \<open>m\<close> and \<open>e\<close> are both 0 (the two zeros of the
  doubles are not told apart). These are the digits and the exponent from which the
  language standard defines the text of a number, so no floating-point arithmetic is
  needed. The two infinities are values of their own; \<open>NaN\<close> does not occur in the
  data handled here.
\<close>

datatype jsnum = Dec int int | PosInfinity | NegInfinity

function normalise :: "int \<Rightarrow> int \<Rightarrow> jsnum" where
  "normalise m e =
     (if m = 0 then Dec 0 0
      else if m mod 10 = 0 then normalise (m div 10) (e + 1)
      else Dec m e)"
  by pat_completeness auto
termination
proof (relation "measure (\<lambda>(m, e). nat \<bar>m\<bar>)")
  show "wf (measure (\<lambda>(m, e). nat \<bar>m\<bar>))" by simp
next
  fix m e :: int
  assume "m \<noteq> 0" "m mod 10 = 0"
  then obtain q where q: "m = 10 * q" and "q \<noteq> 0" by auto
  then have "\<bar>m div 10\<bar> < \<bar>m\<bar>" by simp
  then show "((m div 10, e + 1), (m, e)) \<in> measure (\<lambda>(m, e). nat \<bar>m\<bar>)" by simp
qed

declare normalise.simps [simp del]

text \<open>The number with an integer value, and the test for the shortest form.\<close>

definition num :: "int \<Rightarrow> jsnum" where
  "num i = normalise i 0"

fun shortest :: "jsnum \<Rightarrow> bool" where
  "shortest (Dec m e) = (if m = 0 then e = 0 else m mod 10 \<noteq> 0)"
| "shortest x = True"

fun finite_number :: "jsnum \<Rightarrow> bool" where
  "finite_number (Dec m e) = True"
| "finite_number x = False"

subsection \<open>Values\<close>

datatype jsval =
    JUndefined
  | JNull
  | JBool bool
  | JNum jsnum
  | JStr string
  | JArr "jsval list"
  | JObj "(string \<times> jsval) list"

text \<open>Truthiness, as used by \<open>!x\<close>, \<open>x || y\<close> and \<open>if (x)\<close>.\<close>

fun truthy :: "jsval \<Rightarrow> bool" where
  "truthy JUndefined = False"
| "truthy JNull = False"
| "truthy (JBool b) = b"
| "truthy (JNum x) = (case x of Dec m e \<Rightarrow> m \<noteq> 0 | other \<Rightarrow> True)"
| "truthy (JStr s) = (s \<noteq> [])"
| "truthy (JArr xs) = True"
| "truthy (JObj kvs) = True"

text \<open>\<open>x == null\<close>: true of \<open>null\<close> and \<open>undefined\<close> only.\<close>

fun nullish :: "jsval \<Rightarrow> bool" where
  "nullish JUndefined = True"
| "nullish JNull = True"
| "nullish v = False"

text \<open>\<open>a || b\<close> on values.\<close>

definition js_or :: "jsval \<Rightarrow> jsval \<Rightarrow> jsval" where
  "js_or a b = (if truthy a then a else b)"

subsection \<open>Texts of numbers and strings\<close>

definition digit_char :: "nat \<Rightarrow> char" where
  "digit_char d = ''0123456789'' ! d"

fun show_nat :: "nat \<Rightarrow> string" where
  "show_nat n = (if n < 10 then [digit_char n] else show_nat (n div 10) @ [digit_char (n mod 10)])"

declare show_nat.simps [simp del]

definition show_int :: "int \<Rightarrow> string" where
  "show_int i = (if i < 0 then CHR ''-'' # show_nat (nat (- i)) else show_nat (nat i))"

definition is_digit :: "char \<Rightarrow> bool" where
  "is_digit c = (c \<in> set ''0123456789'')"

definition digit_val :: "char \<Rightarrow> nat" where
  "digit_val c = of_char c - 48"

definition digits_val :: "string \<Rightarrow> nat" where
  "digits_val ds = foldl (\<lambda>n c. 10 * n + digit_val c) 0 ds"

text \<open>
  \<open>Number::toString\<close> of the language standard. For a positive number with digits \<open>s\<close>
  (\<open>k\<close> of them) and \<open>n = e + k\<close>: the digits followed by zeros when \<open>k \<le> n \<le> 21\<close>; the
  digits with a decimal point after the first \<open>n\<close> when \<open>0 < n \<le> 21\<close>; \<open>0.\<close>, zeros and
  the digits when \<open>-6 < n \<le> 0\<close>; otherwise the exponent form.
\<close>

definition positive_text :: "nat \<Rightarrow> int \<Rightarrow> string" where
  "positive_text s e =
     (if 0 \<le> e \<and> e + int (length (show_nat s)) \<le> 21
      then show_nat s @ replicate (nat e) CHR ''0''
      else if 0 < e + int (length (show_nat s)) \<and> e + int (length (show_nat s)) \<le> 21
      then take (nat (e + int (length (show_nat s)))) (show_nat s) @ ''.''
             @ drop (nat (e + int (length (show_nat s)))) (show_nat s)
      else if - 6 < e + int (length (show_nat s)) \<and> e + int (length (show_nat s)) \<le> 0
      then ''0.'' @ replicate (nat (- (e + int (length (show_nat s))))) CHR ''0'' @ show_nat s
      else (if length (show_nat s) = 1 then show_nat s
            else hd (show_nat s) # CHR ''.'' # tl (show_nat s))
           @ ''e''
           @ (if e + int (length (show_nat s)) - 1 < 0 then ''-'' else ''+'')
           @ show_nat (nat \<bar>e + int (length (show_nat s)) - 1\<bar>))"

fun num_to_string :: "jsnum \<Rightarrow> string" where
  "num_to_string (Dec m e) =
     (if m = 0 then ''0''
      else if m < 0 then CHR ''-'' # positive_text (nat (- m)) e
      else positive_text (nat m) e)"
| "num_to_string PosInfinity = ''Infinity''"
| "num_to_string NegInfinity = ''-Infinity''"

text \<open>\<open>Array.prototype.join\<close> on strings.\<close>

fun js_join :: "string \<Rightarrow> string list \<Rightarrow> string" where
  "js_join sep [] = []"
| "js_join sep [x] = x"
| "js_join sep (x # y # ys) = x @ sep @ js_join sep (y # ys)"

text \<open>
  \<open>String(v)\<close> and template-literal interpolation \<open>`${v}`\<close>. An array prints its elements
  joined by commas, \<open>null\<close> and \<open>undefined\<close> elements as empty strings; a plain object
  prints as \<open>[object Object]\<close>.
\<close>

fun js_to_string :: "jsval \<Rightarrow> string" where
  "js_to_string JUndefined = ''undefined''"
| "js_to_string JNull = ''null''"
| "js_to_string (JBool b) = (if b then ''true'' else ''false'')"
| "js_to_string (JNum x) = num_to_string x"
| "js_to_string (JStr s) = s"
| "js_to_string (JArr xs) =
     js_join '',''
       (map (\<lambda>e. if e = JUndefined \<or> e = JNull then [] else js_to_string e) xs)"
| "js_to_string (JObj kvs) = ''[object Object]''"

subsection \<open>Own properties\<close>

text \<open>
  \<open>Object.entries(v)\<close>: the properties of an object, the indexed elements of an array,
  the indexed characters of a string, nothing for any other value.
\<close>

definition indexed :: "jsval list \<Rightarrow> (string \<times> jsval) list" where
  "indexed xs = zip (map show_nat [0..<length xs]) xs"

fun entries :: "jsval \<Rightarrow> (string \<times> jsval) list" where
  "entries (JObj kvs) = kvs"
| "entries (JArr xs) = indexed xs"
| "entries (JStr s) = indexed (map (\<lambda>c. JStr [c]) s)"
| "entries v = []"

subsection \<open>Building an object\<close>

text \<open>
  The order in which an object reports its own properties is not the order in which
  they were written: the keys that are array indices (the decimal text, without leading
  zero, of a number below \<open>2^32 - 1\<close>) come first, in ascending numeric order, and the
  other keys follow in the order in which they were first set. Setting an existing key
  replaces its value in place. \<open>make_object\<close> is the object that an object literal, or a
  sequence of assignments, with the given keys and values in the given order produces.
\<close>

definition is_index_key :: "string \<Rightarrow> bool" where
  "is_index_key k =
     (k \<noteq> [] \<and> list_all is_digit k \<and> (length k > 1 \<longrightarrow> hd k \<noteq> CHR ''0'')
      \<and> digits_val k < 4294967295)"

fun insert_index :: "string \<Rightarrow> jsval \<Rightarrow> (string \<times> jsval) list \<Rightarrow> (string \<times> jsval) list" where
  "insert_index k v [] = [(k, v)]"
| "insert_index k v ((k', v') # ps) =
     (if is_index_key k' \<and> digits_val k' < digits_val k
      then (k', v') # insert_index k v ps
      else (k, v) # (k', v') # ps)"

definition obj_set :: "string \<Rightarrow> jsval \<Rightarrow> (string \<times> jsval) list \<Rightarrow> (string \<times> jsval) list" where
  "obj_set k v ps =
     (if k \<in> set (map fst ps) then AList.update k v ps
      else if is_index_key k then insert_index k v ps
      else ps @ [(k, v)])"

definition make_props :: "(string \<times> jsval) list \<Rightarrow> (string \<times> jsval) list" where
  "make_props kvs = foldl (\<lambda>ps kv. obj_set (fst kv) (snd kv) ps) [] kvs"

definition make_object :: "(string \<times> jsval) list \<Rightarrow> jsval" where
  "make_object kvs = JObj (make_props kvs)"

section \<open>Query builder (buildQuery)\<close>

text \<open>
  The source:
  \<^verbatim>\<open>
  export function buildQuery(filters) {
    if (!filters || Object.keys(filters).length === 0) { return ''; }
    const conditions = [];
    for (const [key, value] of Object.entries(filters)) {
      if (value !== undefined && value !== null) {
        if (typeof value === 'string') { conditions.push(`${key}="${value}"`); }
        else { conditions.push(`${key}=${value}`); }
      }
    }
    return conditions.join('&&');
  }
  \<close>
  \<open>condition\<close> is the text pushed for one entry, \<open>conditions\<close> the array built by the loop.
\<close>

fun condition :: "string \<times> jsval \<Rightarrow> string" where
  "condition (key, JStr s) = key @ ''=\"'' @ s @ ''\"''"
| "condition (key, v) = key @ ''='' @ js_to_string v"

fun conditions :: "(string \<times> jsval) list \<Rightarrow> string list" where
  "conditions [] = []"
| "conditions ((key, v) # rest) =
     (if v \<noteq> JUndefined \<and> v \<noteq> JNull then condition (key, v) # conditions rest
      else conditions rest)"

definition buildQuery :: "jsval \<Rightarrow> string" where
  "buildQuery filters =
     (if \<not> truthy filters \<or> length (entries filters) = 0 then []
      else js_join ''&&'' (conditions (entries filters)))"

section \<open>Property access and JSON text\<close>

text \<open>
  \<open>v[key]\<close> on a value that is neither \<open>null\<close> nor \<open>undefined\<close>: an own property of an
  object, an element or the length of an array, a character or the length of a string.
  Properties inherited from prototypes are not modelled.
\<close>

definition array_index :: "string \<Rightarrow> nat \<Rightarrow> nat option" where
  "array_index key n = find (\<lambda>i. show_nat i = key) [0..<n]"

fun get_prop :: "jsval \<Rightarrow> string \<Rightarrow> jsval" where
  "get_prop (JObj kvs) key = (case map_of kvs key of Some v \<Rightarrow> v | None \<Rightarrow> JUndefined)"
| "get_prop (JArr xs) key =
     (if key = ''length'' then JNum (num (int (length xs)))
      else case array_index key (length xs) of Some i \<Rightarrow> xs ! i | None \<Rightarrow> JUndefined)"
| "get_prop (JStr s) key =
     (if key = ''length'' then JNum (num (int (length s)))
      else case array_index key (length s) of Some i \<Rightarrow> JStr [s ! i] | None \<Rightarrow> JUndefined)"
| "get_prop v key = JUndefined"

text \<open>Optional chaining \<open>v?.[key]\<close>: \<open>undefined\<close> when \<open>v\<close> is \<open>null\<close> or \<open>undefined\<close>.\<close>

definition opt_prop :: "jsval \<Rightarrow> string \<Rightarrow> jsval" where
  "opt_prop v key = (if nullish v then JUndefined else get_prop v key)"

subsection \<open>JSON.stringify\<close>

text \<open>
  \<open>JSON.stringify(value, null, space)\<close> following the language standard: a string is quoted
  with the two-character escapes for backspace, tab, line feed, form feed, carriage return,
  the double quote and the backslash, and \<open>\u00XX\<close> for the other control characters.
  \<open>undefined\<close> serialises to nothing at top level and inside an object (the property is
  left out), and to \<open>null\<close> inside an array; a number that is not finite serialises to
  \<open>null\<close>. \<open>gap\<close> is the indentation unit (empty for
  \<open>space = 0\<close>, two blanks for \<open>space = 2\<close>), \<open>ind\<close> the current indentation.
\<close>

definition hex_char :: "nat \<Rightarrow> char" where
  "hex_char d = ''0123456789abcdef'' ! d"

definition escape_char :: "char \<Rightarrow> string" where
  "escape_char c =
     (if c = CHR 0x08 then [CHR 0x5C, CHR ''b'']
      else if c = CHR 0x09 then [CHR 0x5C, CHR ''t'']
      else if c = CHR 0x0A then [CHR 0x5C, CHR ''n'']
      else if c = CHR 0x0C then [CHR 0x5C, CHR ''f'']
      else if c = CHR 0x0D then [CHR 0x5C, CHR ''r'']
      else if c = CHR 0x22 then [CHR 0x5C, CHR 0x22]
      else if c = CHR 0x5C then [CHR 0x5C, CHR 0x5C]
      else if (of_char c :: nat) < 32
        then [CHR 0x5C, CHR ''u'', CHR ''0'', CHR ''0'',
              hex_char ((of_char c :: nat) div 16), hex_char ((of_char c :: nat) mod 16)]
      else [c])"

definition quote_json :: "string \<Rightarrow> string" where
  "quote_json s = CHR 0x22 # concat (map escape_char s) @ [CHR 0x22]"

definition wrap_json :: "string \<Rightarrow> string \<Rightarrow> string \<Rightarrow> string \<Rightarrow> string list \<Rightarrow> string" where
  "wrap_json gap stepback opn cls partial =
     (if partial = [] then opn @ cls
      else if gap = [] then opn @ js_join '','' partial @ cls
      else opn @ [CHR 0x0A] @ (stepback @ gap)
             @ js_join (CHR '','' # CHR 0x0A # (stepback @ gap)) partial
             @ [CHR 0x0A] @ stepback @ cls)"

fun serialize :: "string \<Rightarrow> string \<Rightarrow> jsval \<Rightarrow> string option"
  and serialize_elems :: "string \<Rightarrow> string \<Rightarrow> jsval list \<Rightarrow> string list"
  and serialize_props :: "string \<Rightarrow> string \<Rightarrow> (string \<times> jsval) list \<Rightarrow> string list"
where
  "serialize gap ind JUndefined = None"
| "serialize gap ind JNull = Some ''null''"
| "serialize gap ind (JBool b) = Some (if b then ''true'' else ''false'')"
| "serialize gap ind (JNum x) = Some (if finite_number x then num_to_string x else ''null'')"
| "serialize gap ind (JStr s) = Some (quote_json s)"
| "serialize gap ind (JArr xs) =
     Some (wrap_json gap ind ''['' '']'' (serialize_elems gap (ind @ gap) xs))"
| "serialize gap ind (JObj kvs) =
     Some (wrap_json gap ind ''{'' ''}'' (serialize_props gap (ind @ gap) kvs))"
| "serialize_elems gap ind [] = []"
| "serialize_elems gap ind (x # xs) =
     (case serialize gap ind x of None \<Rightarrow> ''null'' | Some t \<Rightarrow> t) # serialize_elems gap ind xs"
| "serialize_props gap ind [] = []"
| "serialize_props gap ind ((k, v) # kvs) =
     (case serialize gap ind v of
        None \<Rightarrow> serialize_props gap ind kvs
      | Some t \<Rightarrow>
          (quote_json k @ '':'' @ (if gap = [] then [] else '' '') @ t)
            # serialize_props gap ind kvs)"

definition JSON_stringify :: "jsval \<Rightarrow> nat \<Rightarrow> string option" where
  "JSON_stringify v space = serialize (replicate space CHR '' '') [] v"

text \<open>The argument a console call receives for \<open>JSON.stringify(...)\<close>.\<close>

definition stringified :: "jsval \<Rightarrow> nat \<Rightarrow> jsval" where
  "stringified v space = (case JSON_stringify v space of None \<Rightarrow> JUndefined | Some t \<Rightarrow> JStr t)"

section \<open>Console, process and configuration\<close>

text \<open>
  One call of \<open>console.log\<close> or \<open>console.error\<close> is the list of its arguments; terminal
  colours (chalk) and the progress spinner (ora) are decoration and left out. A function
  that ends the process or throws says so in its result.
\<close>

type_synonym console_call = "jsval list"

datatype js_error =
    ResponseError int jsval
  | RequestError
  | OtherError string

text \<open>
  \<open>ResponseError status data\<close> is an axios error with \<open>error.response = {status, data}\<close>,
  \<open>RequestError\<close> one with \<open>error.request\<close> only, \<open>OtherError message\<close> any other thrown
  error. A \<open>TypeError\<close> raised by the runtime is an \<open>OtherError\<close>; the wording of its
  message depends on the engine and is written \<open>TypeError\<close> here.
\<close>

definition TypeError :: js_error where
  "TypeError = OtherError ''TypeError''"

datatype ending = Exit nat | Throw js_error

datatype 'a outcome = Returned 'a | Exited nat | Rejected js_error

text \<open>
  config.js: the stored settings and the environment variable.
  \<^verbatim>\<open>
  export function getApiKey() {
    return config.get('apiKey') || process.env.CODAT_API_KEY || null; }
  export function getBaseUrl() { return config.get('baseUrl') || 'https://api.codat.io'; }
  export function getOutputFormat() { return config.get('outputFormat') || 'table'; }
  \<close>
\<close>

record config =
  cfg_apiKey :: "string option"
  env_CODAT_API_KEY :: "string option"
  cfg_baseUrl :: "string option"
  cfg_outputFormat :: "string option"

text \<open>\<open>a || b\<close> on optional strings: a missing or empty string is falsy.\<close>

fun str_or :: "string option \<Rightarrow> string option \<Rightarrow> string option" where
  "str_or None b = b"
| "str_or (Some a) b = (if a = [] then b else Some a)"

fun str_or_default :: "string option \<Rightarrow> string \<Rightarrow> string" where
  "str_or_default None d = d"
| "str_or_default (Some a) d = (if a = [] then d else a)"

definition getApiKey :: "config \<Rightarrow> string option" where
  "getApiKey c =
     (case str_or (cfg_apiKey c) (env_CODAT_API_KEY c) of
        None \<Rightarrow> None
      | Some k \<Rightarrow> (if k = [] then None else Some k))"

definition getBaseUrl :: "config \<Rightarrow> string" where
  "getBaseUrl c = str_or_default (cfg_baseUrl c) ''https://api.codat.io''"

definition getOutputFormat :: "config \<Rightarrow> string" where
  "getOutputFormat c = str_or_default (cfg_outputFormat c) ''table''"

section \<open>Authentication and the HTTP client\<close>

text \<open>
  \<open>requireAuth\<close> prints six lines and ends the process with status 1 when no key is
  configured; \<open>createClient\<close> builds the axios instance from the base address, the fixed
  timeout and the authentication headers made from the key.
\<close>

definition requireAuth :: "config \<Rightarrow> console_call list + string" where
  "requireAuth c =
     (case getApiKey c of
        None \<Rightarrow> Inl
          [[JStr ''Error: API key not configured''],
           [JStr (CHR 0x0A # ''Please set your API key using one of these methods:'')],
           [JStr ''  1. codat auth login''],
           [JStr ''  2. export CODAT_API_KEY=your_api_key''],
           [JStr ''  3. codat auth set-key <your_api_key>''],
           [JStr (CHR 0x0A # ''Get your API key from: https://app.codat.io/developers/api-keys'')]]
      | Some k \<Rightarrow> Inr k)"

record client =
  baseURL :: string
  timeout :: nat
  auth_key :: string

definition createClient :: "config \<Rightarrow> console_call list + client" where
  "createClient c =
     (case requireAuth c of
        Inl out \<Rightarrow> Inl out
      | Inr k \<Rightarrow> Inr \<lparr>baseURL = getBaseUrl c, timeout = 30000, auth_key = k\<rparr>)"

text \<open>
  A request is what \<open>client.get(endpoint, {params})\<close> sends. The remote service and the
  transport are outside the program: \<open>axios_get\<close> gives, for a request, the body of the
  response (\<open>response.data\<close>) or the error axios throws.
\<close>

record request =
  req_client :: client
  req_endpoint :: string
  req_params :: "(string \<times> jsval) list"

record world =
  conf :: config
  axios_get :: "request \<Rightarrow> js_error + jsval"

section \<open>Error handler (handleApiError)\<close>

text \<open>
  \<^verbatim>\<open>
  function handleApiError(error) {
    if (error.response) {
      const { status, data } = error.response;
      switch (status) {
        case 400: console.error('Bad Request:', data.message || data.error || 'Invalid request parameters'); break;
        case 401: console.error('Unauthorized:', 'Invalid API key or authentication failed');
                  console.error('Hint: Check your API key with', 'codat auth status'); break;
        case 403: console.error('Forbidden:', 'You do not have permission to access this resource'); break;
        case 404: console.error('Not Found:', 'Resource not found'); break;
        case 429: console.error('Rate Limited:', 'Too many requests. Please try again later.');
                  if (data['Retry-After']) { console.error(`Retry after: ${data['Retry-After']} seconds`); }
                  break;
        case 500: case 502: case 503:
                  console.error('Server Error:', 'Codat API is experiencing issues');
                  console.error('Please try again later'); break;
        default:  console.error(`HTTP ${status}:`, data.message || data.error || 'Unknown error');
      }
      // Show detailed error if available
      if (data.details || data.validation) {
        console.error('\nDetails:', JSON.stringify(data.details || data.validation, null, 2));
      }
    } else if (error.request) {
      console.error('Network Error:', 'No response from server');
      console.error('Check your internet connection and try again');
    } else {
      console.error('Error:', error.message);
    }
    process.exit(1);
  }
  \<close>
  Reading a property of a \<open>null\<close> or \<open>undefined\<close> body throws a \<open>TypeError\<close>; the lines
  printed before it stay printed. \<open>status_report\<close> is the \<open>switch\<close>, \<open>details_report\<close> the
  block after it.
\<close>

definition message_or :: "jsval \<Rightarrow> string \<Rightarrow> jsval" where
  "message_or data dflt =
     js_or (js_or (get_prop data ''message'') (get_prop data ''error'')) (JStr dflt)"

definition status_report :: "int \<Rightarrow> jsval \<Rightarrow> console_call list \<times> js_error option" where
  "status_report status data =
     (if status = 400 then
        (if nullish data then ([], Some TypeError)
         else ([[JStr ''Bad Request:'', message_or data ''Invalid request parameters'']], None))
      else if status = 401 then
        ([[JStr ''Unauthorized:'', JStr ''Invalid API key or authentication failed''],
          [JStr ''Hint: Check your API key with'', JStr ''codat auth status'']], None)
      else if status = 403 then
        ([[JStr ''Forbidden:'', JStr ''You do not have permission to access this resource'']], None)
      else if status = 404 then
        ([[JStr ''Not Found:'', JStr ''Resource not found'']], None)
      else if status = 429 then
        (if nullish data then
           ([[JStr ''Rate Limited:'', JStr ''Too many requests. Please try again later.'']],
            Some TypeError)
         else if truthy (get_prop data ''Retry-After'') then
           ([[JStr ''Rate Limited:'', JStr ''Too many requests. Please try again later.''],
             [JStr (''Retry after: '' @ js_to_string (get_prop data ''Retry-After'') @ '' seconds'')]],
            None)
         else
           ([[JStr ''Rate Limited:'', JStr ''Too many requests. Please try again later.'']], None))
      else if status = 500 \<or> status = 502 \<or> status = 503 then
        ([[JStr ''Server Error:'', JStr ''Codat API is experiencing issues''],
          [JStr ''Please try again later'']], None)
      else
        (if nullish data then ([], Some TypeError)
         else ([[JStr (''HTTP '' @ show_int status @ '':''), message_or data ''Unknown error'']], None)))"

definition details_report :: "jsval \<Rightarrow> console_call list \<times> js_error option" where
  "details_report data =
     (if nullish data then ([], Some TypeError)
      else if truthy (js_or (get_prop data ''details'') (get_prop data ''validation'')) then
        ([[JStr (CHR 0x0A # ''Details:''),
           stringified (js_or (get_prop data ''details'') (get_prop data ''validation'')) 2]], None)
      else ([], None))"

fun handleApiError :: "js_error \<Rightarrow> console_call list \<times> ending" where
  "handleApiError (ResponseError status data) =
     (case status_report status data of
        (out, Some e) \<Rightarrow> (out, Throw e)
      | (out, None) \<Rightarrow>
          (case details_report data of
             (out', Some e) \<Rightarrow> (out @ out', Throw e)
           | (out', None) \<Rightarrow> (out @ out', Exit 1)))"
| "handleApiError RequestError =
     ([[JStr ''Network Error:'', JStr ''No response from server''],
       [JStr ''Check your internet connection and try again'']], Exit 1)"
| "handleApiError (OtherError message) = ([[JStr ''Error:'', JStr message]], Exit 1)"

section \<open>Pagination traversal (getAllPages)\<close>

text \<open>
  \<^verbatim>\<open>
  export async function getAllPages(endpoint, params = {}, options = {}) {
    const { showSpinner = true, maxPages = 10 } = options;
    const allResults = [];
    let page = 1;
    let hasMore = true;
    try {
      while (hasMore && page <= maxPages) {
        const client = createClient();
        const response = await client.get(endpoint, {
          params: { ...params, page, pageSize: params.pageSize || 100 } });
        const data = response.data;
        allResults.push(...(data.results || []));
        hasMore = data._links?.next?.href != null;
        page++;
      }
      return allResults;
    } catch (error) { handleApiError(error); }
  }
  \<close>
  The page bound and the page counter are natural numbers. A run records the requests
  sent, in order, the lines written to the error stream, and how the call ended.
\<close>

record get_options =
  maxPages :: "nat option"

record run =
  requests :: "request list"
  stderr :: "console_call list"
  outcome :: "jsval list outcome"

text \<open>\<open>{ ...params, page, pageSize: params.pageSize || 100 }\<close>\<close>

definition page_params :: "(string \<times> jsval) list \<Rightarrow> nat \<Rightarrow> (string \<times> jsval) list" where
  "page_params params page =
     AList.update ''pageSize'' (js_or (get_prop (JObj params) ''pageSize'') (JNum (num 100)))
       (AList.update ''page'' (JNum (num (int page))) params)"

text \<open>
  \<open>...(data.results || [])\<close>: the elements of an array, the characters of a string;
  reading \<open>results\<close> of a \<open>null\<close> or \<open>undefined\<close> body, or spreading a value that is not
  iterable, throws.
\<close>

fun spread :: "jsval \<Rightarrow> js_error + jsval list" where
  "spread (JArr xs) = Inr xs"
| "spread (JStr s) = Inr (map (\<lambda>c. JStr [c]) s)"
| "spread v = Inl TypeError"

definition page_results :: "jsval \<Rightarrow> js_error + jsval list" where
  "page_results data =
     (if nullish data then Inl TypeError
      else spread (js_or (get_prop data ''results'') (JArr [])))"

text \<open>\<open>data._links?.next?.href != null\<close>, for a body that is not \<open>null\<close> or \<open>undefined\<close>.\<close>

definition has_next :: "jsval \<Rightarrow> bool" where
  "has_next data = (\<not> nullish (opt_prop (opt_prop (get_prop data ''_links'') ''next'') ''href''))"

text \<open>
  One pass through the loop body after the client is made: the request for the page, and
  either the error thrown (by the transport, or while reading the body) or the items
  pushed and the new value of \<open>hasMore\<close>.
\<close>

definition page_request :: "client \<Rightarrow> string \<Rightarrow> (string \<times> jsval) list \<Rightarrow> nat \<Rightarrow> request" where
  "page_request cl endpoint params page =
     \<lparr>req_client = cl, req_endpoint = endpoint, req_params = page_params params page\<rparr>"

definition fetch_page :: "world \<Rightarrow> request \<Rightarrow> js_error + (jsval list \<times> bool)" where
  "fetch_page w rq =
     (case axios_get w rq of
        Inl err \<Rightarrow> Inl err
      | Inr data \<Rightarrow>
          (case page_results data of
             Inl err \<Rightarrow> Inl err
           | Inr items \<Rightarrow> Inr (items, has_next data)))"

text \<open>The \<open>catch\<close> block: the handler's lines, and the process ends or the promise rejects.\<close>

definition failed :: "request list \<Rightarrow> js_error \<Rightarrow> run" where
  "failed reqs err =
     (case handleApiError err of
        (out, Exit n) \<Rightarrow> \<lparr>requests = reqs, stderr = out, outcome = Exited n\<rparr>
      | (out, Throw e) \<Rightarrow> \<lparr>requests = reqs, stderr = out, outcome = Rejected e\<rparr>)"

function pages_loop ::
  "world \<Rightarrow> string \<Rightarrow> (string \<times> jsval) list \<Rightarrow> nat \<Rightarrow>
   jsval list \<Rightarrow> nat \<Rightarrow> bool \<Rightarrow> request list \<Rightarrow> run" where
  "pages_loop w endpoint params maxp allResults page hasMore reqs =
     (if hasMore \<and> page \<le> maxp then
        (case createClient (conf w) of
           Inl out \<Rightarrow> \<lparr>requests = reqs, stderr = out, outcome = Exited 1\<rparr>
         | Inr cl \<Rightarrow>
             (case fetch_page w (page_request cl endpoint params page) of
                Inl err \<Rightarrow> failed (reqs @ [page_request cl endpoint params page]) err
              | Inr (items, continue) \<Rightarrow>
                  pages_loop w endpoint params maxp (allResults @ items) (page + 1) continue
                    (reqs @ [page_request cl endpoint params page])))
      else \<lparr>requests = reqs, stderr = [], outcome = Returned allResults\<rparr>)"
  by pat_completeness auto
termination
  by (relation "measure (\<lambda>(w, endpoint, params, maxp, allResults, page, hasMore, reqs).
                  Suc maxp - page)") auto

declare pages_loop.simps [simp del]


text \<open>\<open>const { maxPages = 10 } = options\<close>\<close>

definition page_bound :: "get_options \<Rightarrow> nat" where
  "page_bound options = (case maxPages options of None \<Rightarrow> 10 | Some n \<Rightarrow> n)"

definition getAllPages :: "world \<Rightarrow> string \<Rightarrow> (string \<times> jsval) list \<Rightarrow> get_options \<Rightarrow> run" where
  "getAllPages w endpoint params options =
     pages_loop w endpoint params (page_bound options) [] 1 True []"

subsection \<open>Example services\<close>

text \<open>
  Remote services used to run the traversal on concrete data: one with three pages of two
  records each and an empty fourth page, one that announces a next page for ever, one
  whose first page is empty but announces a next page, and one whose second page is
  refused with status 401.
\<close>

definition example_config :: config where
  "example_config =
     \<lparr>cfg_apiKey = Some ''key'', env_CODAT_API_KEY = None,
      cfg_baseUrl = None, cfg_outputFormat = None\<rparr>"

definition example_client :: client where
  "example_client = \<lparr>baseURL = ''https://api.codat.io'', timeout = 30000, auth_key = ''key''\<rparr>"

definition next_link :: "string \<times> jsval" where
  "next_link = (''_links'', JObj [(''next'', JObj [(''href'', JStr ''/next'')])])"

definition record_of :: "int \<Rightarrow> jsval" where
  "record_of n = JObj [(''id'', JNum (num n))]"

definition three_pages :: "request \<Rightarrow> js_error + jsval" where
  "three_pages rq =
     (if get_prop (JObj (req_params rq)) ''page'' = JNum (num 1)
      then Inr (JObj [(''results'', JArr [record_of 1, record_of 2]), next_link])
      else if get_prop (JObj (req_params rq)) ''page'' = JNum (num 2)
      then Inr (JObj [(''results'', JArr [record_of 3, record_of 4]), next_link])
      else if get_prop (JObj (req_params rq)) ''page'' = JNum (num 3)
      then Inr (JObj [(''results'', JArr [record_of 5, record_of 6]), next_link])
      else Inr (JObj [(''results'', JArr [])]))"

definition endless :: "request \<Rightarrow> js_error + jsval" where
  "endless rq = Inr (JObj [(''results'', JArr [record_of 1]), next_link])"

definition empty_first :: "request \<Rightarrow> js_error + jsval" where
  "empty_first rq =
     (if get_prop (JObj (req_params rq)) ''page'' = JNum (num 1)
      then Inr (JObj [(''results'', JArr []), next_link])
      else Inr (JObj [(''results'', JArr [record_of 1])]))"



section \<open>Output renderer (output.js)\<close>

text \<open>
  A column is a key string or an object with key, header and an optional formatter, a
  function of the caller that gives the text of a cell or throws.
  The options object carries \<open>format\<close>, \<open>columns\<close>, \<open>fields\<close>, \<open>title\<close> and \<open>pretty\<close>,
  each possibly absent. A renderer returns the calls of \<open>console.log\<close> it made and the
  error it threw, if any. The layout function of the \<open>table\<close> package is outside the
  program and passed in as \<open>table_lib\<close>; it gives the drawn table or throws.
\<close>

datatype column =
    ColKey string
  | ColSpec (col_key: string) (col_header: string)
      (col_formatter: "(jsval \<Rightarrow> jsval \<Rightarrow> js_error + string) option")

record options =
  opt_format :: "string option"
  opt_columns :: "column list option"
  opt_fields :: "string list option"
  opt_title :: "string option"
  opt_pretty :: "bool option"

type_synonym rendering = "console_call list \<times> js_error option"

text \<open>\<open>path.split('.')\<close>\<close>

fun split_on :: "char \<Rightarrow> string \<Rightarrow> string list" where
  "split_on c [] = [[]]"
| "split_on c (x # xs) =
     (if x = c then [] # split_on c xs
      else (case split_on c xs of [] \<Rightarrow> [[x]] | y # ys \<Rightarrow> (x # y) # ys))"

text \<open>
  \<^verbatim>\<open>
  function getNestedValue(obj, path) {
    return path.split('.').reduce((current, key) => current?.[key], obj); }
  \<close>
\<close>

definition getNestedValue :: "jsval \<Rightarrow> string \<Rightarrow> jsval" where
  "getNestedValue obj path = foldl opt_prop obj (split_on CHR ''.'' path)"

text \<open>
  \<^verbatim>\<open>
  function inferColumns(obj) {
    if (!obj || typeof obj !== 'object') { return ['value']; }
    return Object.keys(obj).filter(key => {
      const value = obj[key];
      return value === null || value === undefined ||
             typeof value !== 'object' || Array.isArray(value); });
  }
  \<close>
\<close>

fun is_plain_object :: "jsval \<Rightarrow> bool" where
  "is_plain_object (JObj kvs) = True"
| "is_plain_object v = False"

fun is_array :: "jsval \<Rightarrow> bool" where
  "is_array (JArr xs) = True"
| "is_array v = False"

definition inferColumns :: "jsval \<Rightarrow> string list" where
  "inferColumns obj =
     (if \<not> truthy obj \<or> \<not> (is_plain_object obj \<or> is_array obj) then [''value'']
      else map fst (filter (\<lambda>kv. \<not> is_plain_object (snd kv)) (entries obj)))"

text \<open>
  \<open>formatValue\<close>: the glyphs for a missing value and for the two booleans lie outside the
  8-bit characters and are written as their UTF-8 bytes.
  \<^verbatim>\<open>
  function formatValue(value) {
    if (value === null || value === undefined) { return chalk.gray('-'); }   // em dash
    if (typeof value === 'boolean') { return value ? chalk.green(check) : chalk.red(cross); }
    if (Array.isArray(value)) {
      return value.length > 0 ? `[${value.length} items]` : chalk.gray('[]'); }
    if (typeof value === 'object') { return chalk.gray('[object]'); }
    if (typeof value === 'string' && value.length > 50) {
      return value.substring(0, 47) + '...'; }
    return String(value);
  }
  \<close>
\<close>

definition glyph_dash :: string where
  "glyph_dash = [CHR 0xE2, CHR 0x80, CHR 0x94]"

definition glyph_check :: string where
  "glyph_check = [CHR 0xE2, CHR 0x9C, CHR 0x93]"

definition glyph_cross :: string where
  "glyph_cross = [CHR 0xE2, CHR 0x9C, CHR 0x97]"

fun formatValue :: "jsval \<Rightarrow> string" where
  "formatValue JUndefined = glyph_dash"
| "formatValue JNull = glyph_dash"
| "formatValue (JBool b) = (if b then glyph_check else glyph_cross)"
| "formatValue (JArr xs) =
     (if length xs > 0 then ''['' @ show_nat (length xs) @ '' items]'' else ''[]'')"
| "formatValue (JObj kvs) = ''[object]''"
| "formatValue (JStr s) = (if length s > 50 then take 47 s @ ''...'' else s)"
| "formatValue (JNum x) = num_to_string x"

text \<open>
  \<^verbatim>\<open>
  export function outputJson(data, options = {}) {
    const { pretty = true } = options;
    console.log(JSON.stringify(data, null, pretty ? 2 : 0));
  }
  \<close>
\<close>

definition outputJson :: "jsval \<Rightarrow> options \<Rightarrow> rendering" where
  "outputJson data options =
     ([[stringified data
          (if (case opt_pretty options of None \<Rightarrow> True | Some b \<Rightarrow> b) then 2 else 0)]],
      None)"

text \<open>
  \<^verbatim>\<open>
  export function outputCompact(data, options = {}) {
    const { fields } = options;
    const items = Array.isArray(data) ? data : [data];
    items.forEach(item => {
      if (fields) {
        const parts = fields.map(field => {
          const value = getNestedValue(item, field);
          return `${field}=${value}`; });
        console.log(parts.join(' '));
      } else { console.log(JSON.stringify(item)); }
    });
  }
  \<close>
\<close>

fun items_of :: "jsval \<Rightarrow> jsval list" where
  "items_of (JArr xs) = xs"
| "items_of v = [v]"

definition compact_line :: "string list option \<Rightarrow> jsval \<Rightarrow> console_call" where
  "compact_line field_list item =
     (case field_list of
        Some fs \<Rightarrow>
          [JStr (js_join '' ''
             (map (\<lambda>field. field @ ''='' @ js_to_string (getNestedValue item field)) fs))]
      | None \<Rightarrow> [stringified item 0])"

definition outputCompact :: "jsval \<Rightarrow> options \<Rightarrow> rendering" where
  "outputCompact data options =
     (map (compact_line (opt_fields options)) (items_of data), None)"

text \<open>
  \<^verbatim>\<open>
  export function outputTable(data, options = {}) {
    const { columns, title } = options;
    if (!data) { console.log(chalk.yellow('No data to display')); return; }
    const items = Array.isArray(data) ? data : [data];
    if (items.length === 0) { console.log(chalk.yellow('No results found')); return; }
    const tableColumns = columns || inferColumns(items[0]);
    const tableData = [
      tableColumns.map(col => chalk.bold.cyan(typeof col === 'string' ? col : col.header)) ];
    items.forEach(item => {
      const row = tableColumns.map(col => {
        const key = typeof col === 'string' ? col : col.key;
        const formatter = typeof col === 'object' ? col.formatter : null;
        const value = getNestedValue(item, key);
        if (formatter) { return formatter(value, item); }
        return formatValue(value); });
      tableData.push(row); });
    if (title) { console.log(chalk.bold.white(`\n${title}`)); }
    console.log(table(tableData, { border: ... }));
    console.log(chalk.gray(`${items.length} result${items.length !== 1 ? 's' : ''}`));
  }
  \<close>
\<close>

fun header_of :: "column \<Rightarrow> string" where
  "header_of (ColKey k) = k"
| "header_of (ColSpec k h f) = h"

fun cell :: "jsval \<Rightarrow> column \<Rightarrow> js_error + string" where
  "cell item (ColKey k) = Inr (formatValue (getNestedValue item k))"
| "cell item (ColSpec k h None) = Inr (formatValue (getNestedValue item k))"
| "cell item (ColSpec k h (Some formatter)) = formatter (getNestedValue item k) item"

text \<open>
  \<open>map\<close> and \<open>forEach\<close> run through a list in order and stop at the first call that throws.
\<close>

fun collect :: "(js_error + 'a) list \<Rightarrow> js_error + 'a list" where
  "collect [] = Inr []"
| "collect (x # xs) =
     (case x of
        Inl err \<Rightarrow> Inl err
      | Inr v \<Rightarrow> (case collect xs of Inl err \<Rightarrow> Inl err | Inr vs \<Rightarrow> Inr (v # vs)))"

definition tableData :: "column list \<Rightarrow> jsval list \<Rightarrow> js_error + string list list" where
  "tableData tableColumns items =
     (case collect (map (\<lambda>item. collect (map (cell item) tableColumns)) items) of
        Inl err \<Rightarrow> Inl err
      | Inr rows \<Rightarrow> Inr (map header_of tableColumns # rows))"

definition count_line :: "nat \<Rightarrow> string" where
  "count_line n = show_nat n @ '' result'' @ (if n \<noteq> 1 then ''s'' else [])"

definition title_lines :: "string option \<Rightarrow> console_call list" where
  "title_lines title =
     (case title of
        None \<Rightarrow> []
      | Some t \<Rightarrow> (if t = [] then [] else [[JStr (CHR 0x0A # t)]]))"

definition outputTable ::
  "(string list list \<Rightarrow> js_error + string) \<Rightarrow> jsval \<Rightarrow> options \<Rightarrow> rendering" where
  "outputTable table_lib data options =
     (if \<not> truthy data then ([[JStr ''No data to display'']], None)
      else if length (items_of data) = 0 then ([[JStr ''No results found'']], None)
      else
        (case tableData
                (case opt_columns options of
                   Some cols \<Rightarrow> cols
                 | None \<Rightarrow> map ColKey (inferColumns (hd (items_of data))))
                (items_of data) of
           Inl err \<Rightarrow> ([], Some err)
         | Inr rows \<Rightarrow>
             (case table_lib rows of
                Inl err \<Rightarrow> (title_lines (opt_title options), Some err)
              | Inr drawn \<Rightarrow>
                  (title_lines (opt_title options)
                     @ [[JStr drawn], [JStr (count_line (length (items_of data)))]], None))))"

text \<open>
  \<^verbatim>\<open>
  export function formatOutput(data, options = {}) {
    const format = options.format || getOutputFormat();
    if (format === 'json') { outputJson(data, options); }
    else if (format === 'compact') { outputCompact(data, options); }
    else { outputTable(data, options); }
  }
  \<close>
\<close>

definition formatOutput ::
  "config \<Rightarrow> (string list list \<Rightarrow> js_error + string) \<Rightarrow> jsval \<Rightarrow> options \<Rightarrow> rendering" where
  "formatOutput c table_lib data options =
     (if str_or_default (opt_format options) (getOutputFormat c) = ''json''
        then outputJson data options
      else if str_or_default (opt_format options) (getOutputFormat c) = ''compact''
        then outputCompact data options
      else outputTable table_lib data options)"

subsection \<open>Example options\<close>

text \<open>The empty options object \<open>{}\<close>, and a layout function that never throws.\<close>

definition no_options :: options where
  "no_options =
     \<lparr>opt_format = None, opt_columns = None, opt_fields = None,
      opt_title = None, opt_pretty = None\<rparr>"

definition plain_table :: "string list list \<Rightarrow> js_error + string" where
  "plain_table rows = Inr (js_join [CHR 0x0A] (map (js_join '' | '') rows))"

section \<open>Notions used to state the properties\<close>

text \<open>
  The number of occurrences of the separator \<open>&&\<close> in a text, counted from the left
  without overlap, as \<open>text.split('&&').length - 1\<close> counts them.
\<close>

fun count_andand :: "string \<Rightarrow> nat" where
  "count_andand (a # b # cs) =
     (if a = CHR ''&'' \<and> b = CHR ''&'' then Suc (count_andand cs) else count_andand (b # cs))"
| "count_andand [a] = 0"
| "count_andand [] = 0"

text \<open>A filter literal: a number, or a string; here a string in which \<open>&&\<close> does not occur.\<close>

fun plain_literal :: "jsval \<Rightarrow> bool" where
  "plain_literal (JStr s) = (count_andand s = 0)"
| "plain_literal (JNum x) = True"
| "plain_literal v = False"



section \<open>Properties of numbers and their texts\<close>

lemma normalise_zero: "normalise 0 e = Dec 0 0"
  by (subst normalise.simps) simp

lemma normalise_step:
  "m \<noteq> 0 \<Longrightarrow> m mod 10 = 0 \<Longrightarrow> normalise m e = normalise (m div 10) (e + 1)"
  by (subst normalise.simps) simp

lemma normalise_done: "m mod 10 \<noteq> 0 \<Longrightarrow> normalise m e = Dec m e"
  by (subst normalise.simps) auto

lemma replicate_numeral: "replicate (numeral k) x = x # replicate (pred_numeral k) x"
  by (simp add: numeral_eq_Suc)

lemmas num_eval =
  num_def normalise_zero normalise_step normalise_done positive_text_def show_nat.simps
  digit_char_def replicate_numeral

lemma normalise_shape:
  "m \<noteq> 0 \<Longrightarrow>
   \<exists>m' j. normalise m e = Dec m' (e + int j) \<and> m = m' * 10 ^ j \<and> m' mod 10 \<noteq> 0"
proof (induction m e rule: normalise.induct)
  case (1 m e)
  show ?case
  proof (cases "m mod 10 = 0")
    case False
    then have "normalise m e = Dec m (e + int 0) \<and> m = m * 10 ^ 0 \<and> m mod 10 \<noteq> 0"
      by (simp add: normalise_done)
    then show ?thesis by blast
  next
    case True
    with "1.prems" have q: "m div 10 \<noteq> 0" and m: "m = (m div 10) * 10" by auto
    from "1.IH" [OF "1.prems" True q] obtain m' j where
      n: "normalise (m div 10) (e + 1) = Dec m' (e + 1 + int j)"
      and v: "m div 10 = m' * 10 ^ j" and c: "m' mod 10 \<noteq> 0" by blast
    from n "1.prems" True have "normalise m e = Dec m' (e + int (Suc j))"
      by (simp add: normalise_step)
    moreover from m v have "m = m' * 10 ^ Suc j" by simp
    ultimately show ?thesis using c by blast
  qed
qed

lemma num_eq_iff: "(num i = num j) = (i = j)"
proof
  assume eq: "num i = num j"
  show "i = j"
  proof (cases "i = 0")
    case True
    show ?thesis
    proof (rule ccontr)
      assume "i \<noteq> j"
      with True have "j \<noteq> 0" by simp
      from normalise_shape [OF this, of 0] eq True show False
        by (auto simp: num_def normalise_zero)
    qed
  next
    case False
    from normalise_shape [OF False, of 0] obtain m1 j1 where
      a: "num i = Dec m1 (int j1)" "i = m1 * 10 ^ j1" "m1 mod 10 \<noteq> 0"
      by (auto simp: num_def)
    show ?thesis
    proof (cases "j = 0")
      case True
      with eq a show ?thesis by (auto simp: num_def normalise_zero)
    next
      case nz: False
      from normalise_shape [OF nz, of 0] obtain m2 j2 where
        b: "num j = Dec m2 (int j2)" "j = m2 * 10 ^ j2" by (auto simp: num_def)
      with eq a show ?thesis by simp
    qed
  qed
qed simp

lemma digit_char_range: "d < 10 \<Longrightarrow> digit_char d \<in> set ''0123456789''"
  unfolding digit_char_def by (rule nth_mem) simp

lemma show_nat_digits: "set (show_nat n) \<subseteq> set ''0123456789''"
proof (induction n rule: show_nat.induct)
  case (1 n)
  show ?case
  proof (cases "n < 10")
    case True
    then show ?thesis using digit_char_range [of n] by (subst show_nat.simps) simp
  next
    case False
    have "n mod 10 < 10" by simp
    then have "digit_char (n mod 10) \<in> set ''0123456789''" by (rule digit_char_range)
    with False 1 show ?thesis by (subst show_nat.simps) simp
  qed
qed

lemma show_nat_notin: "c \<notin> set ''0123456789'' \<Longrightarrow> c \<notin> set (show_nat n)"
  using show_nat_digits [of n] by blast

lemma show_nat_nonempty: "show_nat n \<noteq> []"
  by (subst show_nat.simps) simp

lemma show_int_notin:
  assumes "c \<notin> set ''-0123456789''"
  shows "c \<notin> set (show_int i)"
proof -
  from assms have m: "c \<noteq> CHR ''-''" and d: "c \<notin> set ''0123456789''" by simp_all
  show ?thesis
  proof (cases "i < 0")
    case True
    with m show_nat_notin [OF d, of "nat (- i)"] show ?thesis by (simp add: show_int_def)
  next
    case False
    with show_nat_notin [OF d, of "nat i"] show ?thesis by (simp add: show_int_def)
  qed
qed

text \<open>The text of a number is made of digits, the point, the exponent mark and the signs.\<close>

lemma positive_text_notin:
  assumes d: "c \<notin> set ''0123456789''"
    and p: "c \<noteq> CHR ''.''" "c \<noteq> CHR ''e''" "c \<noteq> CHR ''+''" "c \<noteq> CHR ''-''"
  shows "c \<notin> set (positive_text s e)"
proof -
  have sn: "c \<notin> set (show_nat n)" for n using d by (rule show_nat_notin)
  from d have z: "c \<noteq> CHR ''0''" by simp
  have tk: "c \<notin> set (take n (show_nat s))" for n using sn [of s] by (auto dest: in_set_takeD)
  have dr: "c \<notin> set (drop n (show_nat s))" for n using sn [of s] by (auto dest: in_set_dropD)
  have hd: "c \<noteq> hd (show_nat s)"
    using sn [of s] show_nat_nonempty [of s] by (cases "show_nat s") auto
  have tl: "c \<notin> set (tl (show_nat s))"
    using sn [of s] by (cases "show_nat s") auto
  show ?thesis
    unfolding positive_text_def using sn z tk dr hd tl p by auto
qed

lemma num_to_string_notin:
  assumes "c \<notin> set ''0123456789''" "c \<notin> set ''.e+-Infity''"
  shows "c \<notin> set (num_to_string x)"
proof (cases x)
  case (Dec m e)
  from assms(2) have p: "c \<noteq> CHR ''.''" "c \<noteq> CHR ''e''" "c \<noteq> CHR ''+''" "c \<noteq> CHR ''-''"
    by simp_all
  from assms(1) have z: "c \<noteq> CHR ''0''" by simp
  from positive_text_notin [OF assms(1) p] z p show ?thesis unfolding Dec by simp
next
  case PosInfinity
  with assms(2) show ?thesis by simp
next
  case NegInfinity
  with assms(2) show ?thesis by simp
qed

lemma num_to_string_no_amp: "CHR ''&'' \<notin> set (num_to_string x)"
  by (rule num_to_string_notin) simp_all

lemma num_to_string_no_quote: "CHR 0x22 \<notin> set (num_to_string x)"
  by (rule num_to_string_notin) simp_all

lemma positive_text_nonempty: "positive_text s e \<noteq> []"
  using show_nat_nonempty [of s] by (auto simp: positive_text_def)

lemma num_to_string_nonempty: "num_to_string x \<noteq> []"
  by (cases x) (simp_all add: positive_text_nonempty)

section \<open>Properties of object construction\<close>

lemma insert_index_set: "set (insert_index k v ps) = insert (k, v) (set ps)"
  by (induction ps) (auto split: if_splits)

lemma insert_index_length: "length (insert_index k v ps) = Suc (length ps)"
  by (induction ps) auto

lemma obj_set_new:
  assumes "k \<notin> set (map fst ps)"
  shows "set (obj_set k v ps) = insert (k, v) (set ps) \<and> length (obj_set k v ps) = Suc (length ps)"
  using assms by (simp add: obj_set_def insert_index_set insert_index_length)

lemma make_props_snoc: "make_props (kvs @ [(k, v)]) = obj_set k v (make_props kvs)"
  by (simp add: make_props_def)

lemma make_props_distinct:
  "distinct (map fst kvs) \<Longrightarrow>
   set (make_props kvs) = set kvs \<and> length (make_props kvs) = length kvs"
proof (induction kvs rule: rev_induct)
  case Nil
  show ?case by (simp add: make_props_def)
next
  case (snoc kv kvs)
  obtain k v where kv: "kv = (k, v)" by (cases kv)
  from snoc.prems kv have d: "distinct (map fst kvs)" and n: "k \<notin> set (map fst kvs)" by simp_all
  from snoc.IH [OF d] have s: "set (make_props kvs) = set kvs"
    and l: "length (make_props kvs) = length kvs" by simp_all
  from n s have "k \<notin> set (map fst (make_props kvs))" by auto
  from obj_set_new [OF this, of v] s l show ?case
    unfolding kv make_props_snoc by simp
qed

lemma make_props_plain:
  "distinct (map fst kvs) \<Longrightarrow> \<forall>kv \<in> set kvs. \<not> is_index_key (fst kv) \<Longrightarrow>
   make_props kvs = kvs"
proof (induction kvs rule: rev_induct)
  case Nil
  show ?case by (simp add: make_props_def)
next
  case (snoc kv kvs)
  obtain k v where kv: "kv = (k, v)" by (cases kv)
  from snoc.prems kv have d: "distinct (map fst kvs)" and n: "k \<notin> set (map fst kvs)"
    and i: "\<not> is_index_key k" and r: "\<forall>kv \<in> set kvs. \<not> is_index_key (fst kv)" by simp_all
  from snoc.IH [OF d r] have "make_props kvs = kvs" .
  with n i show ?case unfolding kv make_props_snoc by (simp add: obj_set_def)
qed

section \<open>Properties of the query builder\<close>

lemma conditions_filter:
  "conditions fs = map condition (filter (\<lambda>kv. snd kv \<noteq> JUndefined \<and> snd kv \<noteq> JNull) fs)"
  by (induction fs rule: conditions.induct) auto

lemma buildQuery_object:
  "buildQuery (JObj fs) = js_join ''&&'' (conditions fs)"
  by (cases fs) (simp_all add: buildQuery_def)

lemma count_andand_none: "CHR ''&'' \<notin> set x \<Longrightarrow> count_andand x = 0"
  by (induction x rule: count_andand.induct) auto

lemma count_andand_split:
  "c \<noteq> CHR ''&'' \<Longrightarrow> count_andand (x @ c # y) = count_andand x + count_andand y"
proof (induction x rule: count_andand.induct)
  case (1 a b cs)
  then show ?case by simp
next
  case (2 a)
  then show ?case by (cases y) simp_all
next
  case 3
  then show ?case by (cases y) simp_all
qed

lemma count_andand_sep:
  "count_andand x = 0 \<Longrightarrow> x \<noteq> [] \<Longrightarrow> last x \<noteq> CHR ''&'' \<Longrightarrow>
   count_andand (x @ CHR ''&'' # CHR ''&'' # rest) = Suc (count_andand rest)"
proof (induction x rule: count_andand.induct)
  case (1 a b cs)
  from "1.prems"(1) have nab: "\<not> (a = CHR ''&'' \<and> b = CHR ''&'')" by (auto split: if_splits)
  with "1.prems" have "count_andand (b # cs) = 0" "b # cs \<noteq> []" "last (b # cs) \<noteq> CHR ''&''"
    by (simp_all split: if_splits)
  with "1.IH"(2) nab
  have "count_andand ((b # cs) @ CHR ''&'' # CHR ''&'' # rest) = Suc (count_andand rest)"
    by blast
  moreover from nab
  have "count_andand ((a # b # cs) @ CHR ''&'' # CHR ''&'' # rest)
        = count_andand ((b # cs) @ CHR ''&'' # CHR ''&'' # rest)"
    by auto
  ultimately show ?case by simp
next
  case (2 a)
  then show ?case by simp
next
  case 3
  then show ?case by simp
qed

lemma count_andand_join:
  "cs \<noteq> [] \<Longrightarrow>
   \<forall>c \<in> set cs. count_andand c = 0 \<and> c \<noteq> [] \<and> last c \<noteq> CHR ''&'' \<Longrightarrow>
   count_andand (js_join ''&&'' cs) = length cs - 1"
proof (induction "''&&''" cs rule: js_join.induct)
  case 1
  then show ?case by simp
next
  case (2 x)
  then show ?case by simp
next
  case (3 x y ys)
  then show ?case by (simp add: count_andand_sep del: count_andand.simps)
qed

lemma condition_clean:
  assumes "count_andand k = 0" and "plain_literal v"
  shows "count_andand (condition (k, v)) = 0 \<and> condition (k, v) \<noteq> []
         \<and> last (condition (k, v)) \<noteq> CHR ''&''"
proof (cases v)
  case (JStr s)
  with assms have s: "count_andand s = 0" by simp
  have "count_andand (k @ CHR ''='' # (CHR 0x22 # s @ [CHR 0x22])) = 0"
    using assms(1) s
      count_andand_split [of "CHR ''=''" k "CHR 0x22 # s @ [CHR 0x22]"]
      count_andand_split [of "CHR 0x22" "[]" "s @ [CHR 0x22]"]
      count_andand_split [of "CHR 0x22" s "[]"]
    by simp
  then show ?thesis unfolding JStr by simp
next
  case (JNum x)
  have "count_andand (k @ CHR ''='' # num_to_string x) = 0"
    using assms(1) count_andand_split [of "CHR ''=''" k "num_to_string x"]
      count_andand_none [OF num_to_string_no_amp [of x]]
    by simp
  moreover have "last (k @ CHR ''='' # num_to_string x) \<noteq> CHR ''&''"
    using num_to_string_nonempty [of x] num_to_string_no_amp [of x]
    by (metis append_is_Nil_conv last_appendR last_in_set list.distinct(1) last_ConsR)
  ultimately show ?thesis unfolding JNum by simp
qed (use assms in simp_all)

lemma conditions_plain:
  "\<forall>kv \<in> set fs. plain_literal (snd kv) \<Longrightarrow> conditions fs = map condition fs"
proof (induction fs)
  case Nil
  show ?case by simp
next
  case (Cons kv fs)
  obtain k v where kv: "kv = (k, v)" by (cases kv)
  from Cons.prems kv have "plain_literal v" by simp
  then have "v \<noteq> JUndefined \<and> v \<noteq> JNull" by (cases v) simp_all
  with Cons kv show ?case by simp
qed

text \<open>
  C2. As stated the claim fails: the builder takes a filter object of field and value and
  has no operators, so every condition is written with \<open>=\<close>. On the claim's own example
  (fields \<open>status\<close> and \<open>totalAmount\<close>, literals \<open>"Open"\<close> and \<open>500\<close>) the output is
  \<open>status="Open"&&totalAmount=500\<close>, not \<open>status="Open"&&totalAmount>500\<close>.
\<close>

theorem buildQuery_operator_counterexample:
  "buildQuery (JObj [(''status'', JStr ''Open''), (''totalAmount'', JNum (num 500))])
     \<noteq> ''status=\"Open\"&&totalAmount>500''"
  by (simp add: buildQuery_def num_eval)

text \<open>
  C2, amended. Every entry of the filter object whose value is not \<open>null\<close> or \<open>undefined\<close>
  is rendered as the field, \<open>=\<close>, and the literal: a string literal between double quotes,
  a numeric literal as the text of the number, which contains no quote; the conditions are
  joined with \<open>&&\<close>. \<open>buildQuery({status: "Paid"})\<close> is \<open>status="Paid"\<close> and
  \<open>buildQuery({status: "Open", totalAmount: 500})\<close> is \<open>status="Open"&&totalAmount=500\<close>.
\<close>

theorem buildQuery_renders_equals:
  "condition (field, JStr s) = field @ ''=\"'' @ s @ ''\"''
   \<and> condition (field, JNum x) = field @ ''='' @ num_to_string x
   \<and> CHR 0x22 \<notin> set (num_to_string x)
   \<and> buildQuery (JObj fs) =
       js_join ''&&''
         (map condition (filter (\<lambda>kv. snd kv \<noteq> JUndefined \<and> snd kv \<noteq> JNull) fs))
   \<and> buildQuery (JObj [(''status'', JStr ''Paid'')]) = ''status=\"Paid\"''
   \<and> buildQuery (JObj [(''status'', JStr ''Open''), (''totalAmount'', JNum (num 500))])
       = ''status=\"Open\"&&totalAmount=500''"
proof -
  have "buildQuery (JObj fs) =
        js_join ''&&''
          (map condition (filter (\<lambda>kv. snd kv \<noteq> JUndefined \<and> snd kv \<noteq> JNull) fs))"
    by (simp add: buildQuery_object conditions_filter)
  moreover have "buildQuery (JObj [(''status'', JStr ''Paid'')]) = ''status=\"Paid\"''"
    by (simp add: buildQuery_def)
  moreover have
    "buildQuery (JObj [(''status'', JStr ''Open''), (''totalAmount'', JNum (num 500))])
       = ''status=\"Open\"&&totalAmount=500''"
    by (simp add: buildQuery_def num_eval)
  ultimately show ?thesis by (simp add: num_to_string_no_quote)
qed

theorem buildQuery_renders_equals_witness:
  "buildQuery (JObj [(''a'', JStr ''x''), (''b'', JNull), (''n'', JNum (Dec 75 (- 1)))])
     = ''a=\"x\"&&n=7.5''"
  using buildQuery_renders_equals
    [of "''a''" "''x''" "Dec 75 (- 1)"
        "[(''a'', JStr ''x''), (''b'', JNull), (''n'', JNum (Dec 75 (- 1)))]"]
  by (simp add: num_eval)

text \<open>
  C7. As stated the claim fails: literals are copied into the output unescaped, so a
  separator inside a literal is counted too. The single criterion \<open>name = "R&&D"\<close> gives
  \<open>name="R&&D"\<close>, with one occurrence of \<open>&&\<close> where the claim says none.
\<close>

theorem buildQuery_count_counterexample:
  "count_andand (buildQuery (JObj [(''name'', JStr ''R&&D'')]))
     \<noteq> length [(''name'', JStr ''R&&D'')] - 1"
  by (simp add: buildQuery_def)

text \<open>
  C7, amended. Take the criteria in the order the caller writes them into the filter
  object, with different field names, literals that are numbers or strings, and \<open>&&\<close>
  occurring in no field name and no string literal (a single \<open>&\<close> may occur). For \<open>n \<ge> 1\<close>
  criteria the output contains exactly \<open>n - 1\<close> occurrences of \<open>&&\<close>. If no field name is
  an array index, the conditions stand in the order written; a field name that is an
  array index is moved to the front by the object itself, in ascending numeric order, as
  \<open>{b: "x", 10: 1, 2: 2}\<close> shows. The empty filter object, and a missing one, give the
  empty string.
\<close>

theorem buildQuery_separators:
  "buildQuery (make_object []) = [] \<and> buildQuery JUndefined = [] \<and> buildQuery JNull = []
   \<and> (cs \<noteq> [] \<and> distinct (map fst cs)
        \<and> (\<forall>kv \<in> set cs. count_andand (fst kv) = 0 \<and> plain_literal (snd kv))
        \<longrightarrow> count_andand (buildQuery (make_object cs)) = length cs - 1
            \<and> ((\<forall>kv \<in> set cs. \<not> is_index_key (fst kv))
                 \<longrightarrow> buildQuery (make_object cs) = js_join ''&&'' (map condition cs)))
   \<and> buildQuery (make_object [(''b'', JStr ''x''), (''10'', JNum (num 1)), (''2'', JNum (num 2))])
       = ''2=2&&10=1&&b=\"x\"''"
proof -
  have main: "count_andand (buildQuery (make_object cs)) = length cs - 1
        \<and> ((\<forall>kv \<in> set cs. \<not> is_index_key (fst kv))
             \<longrightarrow> buildQuery (make_object cs) = js_join ''&&'' (map condition cs))"
    if ne: "cs \<noteq> []" and di: "distinct (map fst cs)"
      and ok: "\<forall>kv \<in> set cs. count_andand (fst kv) = 0 \<and> plain_literal (snd kv)"
  proof -
    let ?ps = "make_props cs"
    from make_props_distinct [OF di] have st: "set ?ps = set cs" and ln: "length ?ps = length cs"
      by simp_all
    from ok st have "\<forall>kv \<in> set ?ps. plain_literal (snd kv)" by simp
    then have "conditions ?ps = map condition ?ps" by (rule conditions_plain)
    then have eq: "buildQuery (make_object cs) = js_join ''&&'' (map condition ?ps)"
      by (simp add: make_object_def buildQuery_object)
    have cl: "\<forall>c \<in> set (map condition ?ps).
                count_andand c = 0 \<and> c \<noteq> [] \<and> last c \<noteq> CHR ''&''"
    proof
      fix c assume "c \<in> set (map condition ?ps)"
      then obtain k v where kv: "(k, v) \<in> set ?ps" and c: "c = condition (k, v)" by auto
      from ok st kv have "count_andand k = 0" "plain_literal v" by auto
      from condition_clean [OF this] c
      show "count_andand c = 0 \<and> c \<noteq> [] \<and> last c \<noteq> CHR ''&''" by simp
    qed
    from ne ln have "map condition ?ps \<noteq> []" by auto
    from count_andand_join [OF this cl] ln eq
    have cnt: "count_andand (buildQuery (make_object cs)) = length cs - 1" by simp
    have ord: "buildQuery (make_object cs) = js_join ''&&'' (map condition cs)"
      if "\<forall>kv \<in> set cs. \<not> is_index_key (fst kv)"
      using eq make_props_plain [OF di that] by simp
    from cnt ord show ?thesis by blast
  qed
  moreover have "buildQuery (make_object []) = [] \<and> buildQuery JUndefined = []
      \<and> buildQuery JNull = []"
    by (simp add: buildQuery_def make_object_def make_props_def)
  moreover have
    "buildQuery (make_object [(''b'', JStr ''x''), (''10'', JNum (num 1)), (''2'', JNum (num 2))])
       = ''2=2&&10=1&&b=\"x\"''"
    by (simp add: make_object_def make_props_def obj_set_def is_index_key_def is_digit_def
        digits_val_def digit_val_def buildQuery_def num_eval)
  ultimately show ?thesis by blast
qed

theorem buildQuery_separators_witness:
  "count_andand (buildQuery
       (make_object [(''name'', JStr ''R&D''), (''totalAmount'', JNum (num 500))]))
     = length [(''name'', JStr ''R&D''), (''totalAmount'', JNum (num 500))] - 1
   \<and> buildQuery (make_object [(''name'', JStr ''R&D''), (''totalAmount'', JNum (num 500))])
     = js_join ''&&''
         (map condition [(''name'', JStr ''R&D''), (''totalAmount'', JNum (num 500))])"
proof -
  let ?cs = "[(''name'', JStr ''R&D''), (''totalAmount'', JNum (num 500))]"
  have "?cs \<noteq> [] \<and> distinct (map fst ?cs)
        \<and> (\<forall>kv \<in> set ?cs. count_andand (fst kv) = 0 \<and> plain_literal (snd kv))"
    by simp
  moreover have "\<forall>kv \<in> set ?cs. \<not> is_index_key (fst kv)"
    by (simp add: is_index_key_def is_digit_def)
  ultimately show ?thesis using buildQuery_separators [of ?cs] by blast
qed

section \<open>Properties of the pagination traversal\<close>

lemma requests_failed: "requests (failed reqs err) = reqs"
  by (simp add: failed_def split: prod.splits ending.splits)


lemma loop_stop:
  "\<not> (hasMore \<and> page \<le> maxp) \<Longrightarrow>
   pages_loop w ep ps maxp acc page hasMore reqs
     = \<lparr>requests = reqs, stderr = [], outcome = Returned acc\<rparr>"
  by (subst pages_loop.simps) (simp only: if_False)

lemma loop_noauth:
  "hasMore \<Longrightarrow> page \<le> maxp \<Longrightarrow> createClient (conf w) = Inl out \<Longrightarrow>
   pages_loop w ep ps maxp acc page hasMore reqs
     = \<lparr>requests = reqs, stderr = out, outcome = Exited 1\<rparr>"
  by (subst pages_loop.simps) simp

lemma loop_fail:
  "hasMore \<Longrightarrow> page \<le> maxp \<Longrightarrow> createClient (conf w) = Inr cl \<Longrightarrow>
   fetch_page w (page_request cl ep ps page) = Inl err \<Longrightarrow>
   pages_loop w ep ps maxp acc page hasMore reqs
     = failed (reqs @ [page_request cl ep ps page]) err"
  by (subst pages_loop.simps) simp

lemma loop_next:
  "hasMore \<Longrightarrow> page \<le> maxp \<Longrightarrow> createClient (conf w) = Inr cl \<Longrightarrow>
   fetch_page w (page_request cl ep ps page) = Inr (items, nxt) \<Longrightarrow>
   pages_loop w ep ps maxp acc page hasMore reqs
     = pages_loop w ep ps maxp (acc @ items) (Suc page) nxt
         (reqs @ [page_request cl ep ps page])"
  by (subst pages_loop.simps) simp

lemma pages_loop_bound:
  "length (requests (pages_loop w ep ps maxp acc page hasMore reqs))
     \<le> length reqs + (Suc maxp - page)"
proof (induction w ep ps maxp acc page hasMore reqs rule: pages_loop.induct)
  case (1 w ep ps maxp acc page hasMore reqs)
  show ?case
  proof (cases "hasMore \<and> page \<le> maxp")
    case False
    then show ?thesis by (simp add: loop_stop)
  next
    case True
    then have hm: hasMore and le: "page \<le> maxp" by simp_all
    show ?thesis
    proof (cases "createClient (conf w)")
      case (Inl out)
      with hm le show ?thesis by (simp add: loop_noauth)
    next
      case (Inr cl)
      show ?thesis
      proof (cases "fetch_page w (page_request cl ep ps page)")
        case (Inl err)
        with hm le Inr show ?thesis by (simp add: loop_fail requests_failed)
      next
        case r: (Inr res)
        obtain items nxt where res: "res = (items, nxt)" by (cases res)
        from 1 [OF True Inr r [unfolded res] refl]
        have "length (requests (pages_loop w ep ps maxp (acc @ items) (page + 1) nxt
                 (reqs @ [page_request cl ep ps page])))
              \<le> length (reqs @ [page_request cl ep ps page]) + (Suc maxp - (page + 1))" .
        with hm le Inr r res show ?thesis by (simp add: loop_next)
      qed
    qed
  qed
qed





lemma loop_requests:
  "createClient (conf w) = Inr cl \<Longrightarrow>
   \<exists>m. requests (pages_loop w ep ps maxp acc page hasMore reqs)
         = reqs @ map (page_request cl ep ps) [page..<page + m]
     \<and> (m = 0) = (\<not> (hasMore \<and> page \<le> maxp))
     \<and> (\<forall>p. page \<le> p \<and> p < page + m \<longrightarrow>
           (Suc p < page + m)
           = (p < maxp \<and> (\<exists>items. fetch_page w (page_request cl ep ps p) = Inr (items, True))))"
proof (induction w ep ps maxp acc page hasMore reqs rule: pages_loop.induct)
  case (1 w ep ps maxp acc page hasMore reqs)
  show ?case
  proof (cases "hasMore \<and> page \<le> maxp")
    case False
    then have "requests (pages_loop w ep ps maxp acc page hasMore reqs) = reqs"
      by (simp add: loop_stop)
    with False show ?thesis by (intro exI [of _ 0]) auto
  next
    case True
    then have hm: hasMore and le: "page \<le> maxp" by simp_all
    show ?thesis
    proof (cases "fetch_page w (page_request cl ep ps page)")
      case (Inl err)
      have "requests (pages_loop w ep ps maxp acc page hasMore reqs)
            = reqs @ [page_request cl ep ps page]"
        using hm le "1.prems" Inl by (simp add: loop_fail requests_failed)
      then have q1: "requests (pages_loop w ep ps maxp acc page hasMore reqs)
            = reqs @ map (page_request cl ep ps) [page..<page + 1]" by simp
      have q3: "(Suc p < page + 1)
           = (p < maxp \<and> (\<exists>items. fetch_page w (page_request cl ep ps p) = Inr (items, True)))"
        if p: "page \<le> p \<and> p < page + 1" for p
      proof -
        from p have "p = page" by simp
        with Inl show ?thesis by simp
      qed
      from q1 q3 True show ?thesis by (intro exI [of _ 1]) simp
    next
      case r: (Inr res)
      obtain items nxt where res: "res = (items, nxt)" by (cases res)
      have step: "pages_loop w ep ps maxp acc page hasMore reqs
            = pages_loop w ep ps maxp (acc @ items) (page + 1) nxt
                (reqs @ [page_request cl ep ps page])"
        using hm le "1.prems" r res by (simp add: loop_next)
      from "1.IH" [OF True "1.prems" r [unfolded res] refl "1.prems"]
      obtain m where
        m1: "requests (pages_loop w ep ps maxp (acc @ items) (page + 1) nxt
                (reqs @ [page_request cl ep ps page]))
             = (reqs @ [page_request cl ep ps page])
                 @ map (page_request cl ep ps) [page + 1..<page + 1 + m]"
        and m2: "(m = 0) = (\<not> (nxt \<and> page + 1 \<le> maxp))"
        and m3: "\<forall>p. page + 1 \<le> p \<and> p < page + 1 + m \<longrightarrow>
           (Suc p < page + 1 + m)
           = (p < maxp \<and> (\<exists>items. fetch_page w (page_request cl ep ps p) = Inr (items, True)))"
        by blast
      have "[page..<page + Suc m] = page # [page + 1..<page + 1 + m]"
        by (simp add: upt_conv_Cons)
      with m1 step have q1: "requests (pages_loop w ep ps maxp acc page hasMore reqs)
             = reqs @ map (page_request cl ep ps) [page..<page + Suc m]" by simp
      have q3: "(Suc p < page + Suc m)
           = (p < maxp \<and> (\<exists>items. fetch_page w (page_request cl ep ps p) = Inr (items, True)))"
        if p: "page \<le> p \<and> p < page + Suc m" for p
      proof (cases "p = page")
        case True
        with m2 r res show ?thesis by auto
      next
        case False
        with p have "page + 1 \<le> p \<and> p < page + 1 + m" by simp
        with m3 have "(Suc p < page + 1 + m)
           = (p < maxp \<and> (\<exists>items. fetch_page w (page_request cl ep ps p) = Inr (items, True)))"
          by blast
        then show ?thesis by simp
      qed
      from q1 q3 True show ?thesis by (intro exI [of _ "Suc m"]) simp
    qed
  qed
qed

lemma loop_run:
  "hasMore \<and> page \<le> maxp \<Longrightarrow>
   pages_loop w ep ps maxp acc page hasMore reqs
     = (case createClient (conf w) of
           Inl out \<Rightarrow> \<lparr>requests = reqs, stderr = out, outcome = Exited 1\<rparr>
         | Inr cl \<Rightarrow>
             (case fetch_page w (page_request cl ep ps page) of
                Inl err \<Rightarrow> failed (reqs @ [page_request cl ep ps page]) err
              | Inr (items, nxt) \<Rightarrow>
                  pages_loop w ep ps maxp (acc @ items) (page + 1) nxt
                    (reqs @ [page_request cl ep ps page])))"
  by (subst pages_loop.simps) simp

lemma example_createClient: "createClient example_config = Inr example_client"
  by (simp add: createClient_def requireAuth_def getApiKey_def getBaseUrl_def
      example_config_def example_client_def)

lemma next_link_has_next: "has_next (JObj [(''results'', rs), next_link])"
  by (simp add: has_next_def next_link_def opt_prop_def)

lemma no_link_has_next: "\<not> has_next (JObj [(''results'', rs)])"
  by (simp add: has_next_def opt_prop_def)

lemma results_page: "page_results (JObj ((''results'', JArr xs) # rest)) = Inr xs"
  by (simp add: page_results_def js_or_def)

lemma page_of_request:
  "get_prop (JObj (req_params (page_request cl ep [] p))) ''page'' = JNum (num (int p))"
  by (simp add: page_request_def page_params_def)

lemma three_pages_fetch:
  "fetch_page \<lparr>conf = c, axios_get = three_pages\<rparr> (page_request cl ep [] p)
   = (if p = 1 then Inr ([record_of 1, record_of 2], True)
      else if p = 2 then Inr ([record_of 3, record_of 4], True)
      else if p = 3 then Inr ([record_of 5, record_of 6], True)
      else Inr ([], False))"
  by (simp add: fetch_page_def three_pages_def page_of_request num_eq_iff results_page
      next_link_has_next no_link_has_next del: get_prop.simps)

lemma endless_fetch:
  "fetch_page \<lparr>conf = c, axios_get = endless\<rparr> rq = Inr ([record_of 1], True)"
  by (simp add: fetch_page_def endless_def results_page next_link_has_next)

lemma empty_first_fetch:
  "fetch_page \<lparr>conf = c, axios_get = empty_first\<rparr> (page_request cl ep [] p)
   = (if p = 1 then Inr ([], True) else Inr ([record_of 1], False))"
  by (simp add: fetch_page_def empty_first_def page_of_request num_eq_iff results_page
      next_link_has_next no_link_has_next del: get_prop.simps)





lemma three_pages_run:
  "getAllPages \<lparr>conf = example_config, axios_get = three_pages\<rparr> ''/invoices'' []
     \<lparr>maxPages = None\<rparr>
   = \<lparr>requests = map (page_request example_client ''/invoices'' []) [1, 2, 3, 4],
      stderr = [],
      outcome = Returned [record_of 1, record_of 2, record_of 3, record_of 4,
                          record_of 5, record_of 6]\<rparr>"
  by (simp add: getAllPages_def page_bound_def loop_run loop_stop example_createClient
      three_pages_fetch eval_nat_numeral)

lemma endless_run:
  "length (requests (getAllPages \<lparr>conf = example_config, axios_get = endless\<rparr> ''/invoices'' []
     \<lparr>maxPages = None\<rparr>)) = 10"
  by (simp add: getAllPages_def page_bound_def loop_run loop_stop example_createClient
      endless_fetch eval_nat_numeral)

lemma empty_first_run:
  "getAllPages \<lparr>conf = example_config, axios_get = empty_first\<rparr> ''/invoices'' []
     \<lparr>maxPages = None\<rparr>
   = \<lparr>requests = map (page_request example_client ''/invoices'' []) [1, 2],
      stderr = [], outcome = Returned [record_of 1]\<rparr>"
  by (simp add: getAllPages_def page_bound_def loop_run loop_stop example_createClient
      empty_first_fetch eval_nat_numeral)



text \<open>
  C1. Whatever the endpoint, the parameters, the remote service and the bound \<open>N\<close>, a
  traversal sends at most \<open>N\<close> page requests; without a bound in the options the bound
  is 10. The traversal is a total function of its inputs (its recursion is proved to
  terminate on the distance of the page counter from the bound), so it ends also when
  every page announces a next one.
\<close>

theorem getAllPages_bounded:
  "length (requests (getAllPages w endpoint params opts)) \<le> page_bound opts
   \<and> page_bound \<lparr>maxPages = Some N\<rparr> = N
   \<and> page_bound \<lparr>maxPages = None\<rparr> = 10"
proof -
  have "length (requests (pages_loop w endpoint params (page_bound opts) [] 1 True []))
        \<le> length ([] :: request list) + (Suc (page_bound opts) - 1)"
    by (rule pages_loop_bound)
  then show ?thesis by (simp add: getAllPages_def page_bound_def)
qed

theorem getAllPages_bounded_witness:
  "length (requests (getAllPages \<lparr>conf = example_config, axios_get = endless\<rparr> ''/invoices'' []
     \<lparr>maxPages = None\<rparr>)) = 10
   \<and> length (requests (getAllPages \<lparr>conf = example_config, axios_get = endless\<rparr> ''/invoices'' []
     \<lparr>maxPages = Some 3\<rparr>)) \<le> 3"
  using getAllPages_bounded
    [of "\<lparr>conf = example_config, axios_get = endless\<rparr>" "''/invoices''" "[]"
        "\<lparr>maxPages = Some 3\<rparr>" 3]
  by (simp add: endless_run)

section \<open>Properties of the error handler\<close>


lemma status_report_prints:
  "\<not> nullish data \<Longrightarrow>
   snd (status_report st data) = None \<and> fst (status_report st data) \<noteq> []"
  by (simp add: status_report_def)


lemma details_report_ok: "\<not> nullish data \<Longrightarrow> snd (details_report data) = None"
  by (simp add: details_report_def)

lemma handleApiError_response:
  "handleApiError (ResponseError st data) =
     (case snd (status_report st data) of
        Some e \<Rightarrow> (fst (status_report st data), Throw e)
      | None \<Rightarrow>
          (case snd (details_report data) of
             Some e \<Rightarrow> (fst (status_report st data) @ fst (details_report data), Throw e)
           | None \<Rightarrow> (fst (status_report st data) @ fst (details_report data), Exit 1)))"
proof -
  obtain o1 e1 where s: "status_report st data = (o1, e1)" by (cases "status_report st data")
  obtain o2 e2 where d: "details_report data = (o2, e2)" by (cases "details_report data")
  show ?thesis by (cases e1; cases e2) (simp_all add: s d)
qed


lemma handleApiError_exits:
  assumes "\<forall>st data. err = ResponseError st data \<longrightarrow> \<not> nullish data"
  shows "snd (handleApiError err) = Exit 1 \<and> fst (handleApiError err) \<noteq> []"
proof (cases err)
  case (ResponseError st data)
  with assms have "\<not> nullish data" by simp
  then have "snd (status_report st data) = None" "fst (status_report st data) \<noteq> []"
    "snd (details_report data) = None"
    by (simp_all add: status_report_prints details_report_ok)
  then show ?thesis unfolding ResponseError handleApiError_response by simp
qed simp_all

lemma handleApiError_null_body:
  "nullish data \<Longrightarrow> snd (handleApiError (ResponseError st data)) \<noteq> Exit 1"
proof -
  assume "nullish data"
  then have d: "snd (details_report data) = Some TypeError" by (simp add: details_report_def)
  show ?thesis
    unfolding handleApiError_response using d
    by (cases "snd (status_report st data)") simp_all
qed

lemma handleApiError_exit_prints:
  assumes "snd (handleApiError err) = Exit 1"
  shows "fst (handleApiError err) \<noteq> []"
proof -
  have "\<forall>st data. err = ResponseError st data \<longrightarrow> \<not> nullish data"
    using assms handleApiError_null_body by blast
  then show ?thesis using handleApiError_exits by blast
qed



section \<open>The traversal: failure, stopping and order\<close>







text \<open>
  C4. As stated the claim fails: an empty page does not stop the traversal. With a first
  page that has no records but announces a next page, the second page is fetched.
\<close>

theorem getAllPages_empty_page_counterexample:
  "fetch_page \<lparr>conf = example_config, axios_get = empty_first\<rparr>
     (page_request example_client ''/invoices'' [] 1) = Inr ([], True)
   \<and> length (requests (getAllPages \<lparr>conf = example_config, axios_get = empty_first\<rparr>
       ''/invoices'' [] \<lparr>maxPages = None\<rparr>)) = 2"
  by (simp add: empty_first_run empty_first_fetch)

text \<open>
  C4, amended. With a key configured, the traversal requests the pages 1, 2, ... in order,
  and after page \<open>p\<close> it requests page \<open>p + 1\<close> exactly when \<open>p\<close> is below the bound and the
  fetch of page \<open>p\<close> succeeded with a continuation marker that is neither absent nor
  \<open>null\<close>; so it stops exactly when the marker is absent or \<open>null\<close>, or the bound is
  reached, or the fetch failed. Whether the page had records plays no part. It sends no
  request only when the bound is 0. Over three pages of two records each, all announcing
  a next page, and a fourth page without records and without marker, it returns the six
  records and sends four requests.
\<close>

theorem getAllPages_stops_exactly:
  "(createClient (conf w) = Inr cl \<longrightarrow>
      requests (getAllPages w endpoint params opts)
        = map (page_request cl endpoint params)
            [1..<Suc (length (requests (getAllPages w endpoint params opts)))]
      \<and> (length (requests (getAllPages w endpoint params opts)) = 0) = (page_bound opts = 0)
      \<and> (\<forall>p. 1 \<le> p \<and> p \<le> length (requests (getAllPages w endpoint params opts)) \<longrightarrow>
            (p < length (requests (getAllPages w endpoint params opts)))
            = (p < page_bound opts
               \<and> (\<exists>items. fetch_page w (page_request cl endpoint params p) = Inr (items, True)))))
   \<and> getAllPages \<lparr>conf = example_config, axios_get = three_pages\<rparr> ''/invoices'' []
        \<lparr>maxPages = None\<rparr>
      = \<lparr>requests = map (page_request example_client ''/invoices'' []) [1, 2, 3, 4],
         stderr = [],
         outcome = Returned [record_of 1, record_of 2, record_of 3, record_of 4,
                             record_of 5, record_of 6]\<rparr>"
proof -
  have main: "requests (getAllPages w endpoint params opts)
        = map (page_request cl endpoint params)
            [1..<Suc (length (requests (getAllPages w endpoint params opts)))]
      \<and> (length (requests (getAllPages w endpoint params opts)) = 0) = (page_bound opts = 0)
      \<and> (\<forall>p. 1 \<le> p \<and> p \<le> length (requests (getAllPages w endpoint params opts)) \<longrightarrow>
            (p < length (requests (getAllPages w endpoint params opts)))
            = (p < page_bound opts
               \<and> (\<exists>items. fetch_page w (page_request cl endpoint params p) = Inr (items, True))))"
    if cl: "createClient (conf w) = Inr cl"
  proof -
    let ?r = "getAllPages w endpoint params opts"
    from loop_requests [OF cl, of endpoint params "page_bound opts" "[]" 1 True "[]"]
    obtain m where
      m1: "requests ?r = map (page_request cl endpoint params) [1..<1 + m]"
      and m2: "(m = 0) = (\<not> (True \<and> 1 \<le> page_bound opts))"
      and m3: "\<forall>p. 1 \<le> p \<and> p < 1 + m \<longrightarrow>
           (Suc p < 1 + m)
           = (p < page_bound opts
              \<and> (\<exists>items. fetch_page w (page_request cl endpoint params p) = Inr (items, True)))"
      unfolding getAllPages_def by auto
    from m1 have len: "length (requests ?r) = m" by simp
    from m1 len have q1: "requests ?r
        = map (page_request cl endpoint params) [1..<Suc (length (requests ?r))]" by simp
    from m2 len have q2: "(length (requests ?r) = 0) = (page_bound opts = 0)" by auto
    have q3: "(p < length (requests ?r))
            = (p < page_bound opts
               \<and> (\<exists>items. fetch_page w (page_request cl endpoint params p) = Inr (items, True)))"
      if "1 \<le> p \<and> p \<le> length (requests ?r)" for p
    proof -
      from that len have "1 \<le> p \<and> p < 1 + m" by simp
      with m3 have "(Suc p < 1 + m)
           = (p < page_bound opts
              \<and> (\<exists>items. fetch_page w (page_request cl endpoint params p) = Inr (items, True)))"
        by blast
      with len show ?thesis by simp
    qed
    from q1 q2 q3 show ?thesis by blast
  qed
  with three_pages_run show ?thesis by blast
qed

theorem getAllPages_stops_exactly_witness:
  "requests (getAllPages \<lparr>conf = example_config, axios_get = empty_first\<rparr> ''/invoices'' []
       \<lparr>maxPages = None\<rparr>)
     = map (page_request example_client ''/invoices'' []) [1..<Suc 2]
   \<and> ((1::nat) < 2)
     = (1 < page_bound \<lparr>maxPages = None\<rparr>
        \<and> (\<exists>items. fetch_page \<lparr>conf = example_config, axios_get = empty_first\<rparr>
              (page_request example_client ''/invoices'' [] 1) = Inr (items, True)))"
proof -
  let ?w = "\<lparr>conf = example_config, axios_get = empty_first\<rparr>"
  have cl: "createClient (conf ?w) = Inr example_client" by (simp add: example_createClient)
  have len: "length (requests (getAllPages ?w ''/invoices'' [] \<lparr>maxPages = None\<rparr>)) = 2"
    by (simp add: empty_first_run)
  from getAllPages_stops_exactly
    [of ?w example_client "''/invoices''" "[]" "\<lparr>maxPages = None\<rparr>"] cl
  have rq: "requests (getAllPages ?w ''/invoices'' [] \<lparr>maxPages = None\<rparr>)
        = map (page_request example_client ''/invoices'' [])
            [1..<Suc (length (requests (getAllPages ?w ''/invoices'' [] \<lparr>maxPages = None\<rparr>)))]"
    and al: "\<forall>p. 1 \<le> p \<and> p \<le> length (requests (getAllPages ?w ''/invoices'' [] \<lparr>maxPages = None\<rparr>)) \<longrightarrow>
            (p < length (requests (getAllPages ?w ''/invoices'' [] \<lparr>maxPages = None\<rparr>)))
            = (p < page_bound \<lparr>maxPages = None\<rparr>
               \<and> (\<exists>items. fetch_page ?w (page_request example_client ''/invoices'' [] p)
                      = Inr (items, True)))"
    by blast+
  from al [rule_format, of 1] len
  have "((1::nat) < 2)
     = (1 < page_bound \<lparr>maxPages = None\<rparr>
        \<and> (\<exists>items. fetch_page ?w (page_request example_client ''/invoices'' [] 1)
              = Inr (items, True)))"
    by simp
  with rq len show ?thesis by simp
qed




section \<open>Properties of the error handler: status 401\<close>

text \<open>
  C9. As stated the claim fails: the block that prints details comes after the \<open>switch\<close>
  and runs for every status. A 401 response whose body has a \<open>details\<close> field gets a
  \<open>Details:\<close> line with that field.
\<close>

theorem handleApiError_401_details_counterexample:
  "[JStr (CHR 0x0A # ''Details:''), JStr ''\"amount must be positive\"'']
     \<in> set (fst (handleApiError
                   (ResponseError 401 (JObj [(''details'', JStr ''amount must be positive'')]))))"
  by (simp add: status_report_def details_report_def js_or_def stringified_def
      JSON_stringify_def quote_json_def escape_char_def)

text \<open>
  C9, amended. For every response with status 401 the handler first prints the fixed
  \<open>Unauthorized:\<close> line and the hint, which carry nothing from the body (not its
  \<open>message\<close>, not its \<open>error\<close>). Then, as for every status, if the body has a truthy
  \<open>details\<close> or \<open>validation\<close> field one \<open>Details:\<close> line with that field as JSON text
  follows, and the process ends with status 1; reading these fields of a \<open>null\<close> or
  \<open>undefined\<close> body throws a \<open>TypeError\<close> instead.
\<close>

theorem handleApiError_401:
  "handleApiError (ResponseError 401 data) =
     (if nullish data then
        ([[JStr ''Unauthorized:'', JStr ''Invalid API key or authentication failed''],
          [JStr ''Hint: Check your API key with'', JStr ''codat auth status'']],
         Throw TypeError)
      else if truthy (js_or (get_prop data ''details'') (get_prop data ''validation'')) then
        ([[JStr ''Unauthorized:'', JStr ''Invalid API key or authentication failed''],
          [JStr ''Hint: Check your API key with'', JStr ''codat auth status''],
          [JStr (CHR 0x0A # ''Details:''),
           stringified (js_or (get_prop data ''details'') (get_prop data ''validation'')) 2]],
         Exit 1)
      else
        ([[JStr ''Unauthorized:'', JStr ''Invalid API key or authentication failed''],
          [JStr ''Hint: Check your API key with'', JStr ''codat auth status'']],
         Exit 1))"
  by (simp add: status_report_def details_report_def)

theorem handleApiError_401_witness:
  "handleApiError (ResponseError 401 (JObj [(''message'', JStr ''token expired'')])) =
     ([[JStr ''Unauthorized:'', JStr ''Invalid API key or authentication failed''],
       [JStr ''Hint: Check your API key with'', JStr ''codat auth status'']],
      Exit 1)"
  using handleApiError_401 [of "JObj [(''message'', JStr ''token expired'')]"]
  by (simp add: js_or_def)

section \<open>Properties of the output renderer\<close>








text \<open>
  C8. As stated the claim fails for the compact format: it prints one line per item, so
  for an empty collection it prints nothing at all, no notice.
\<close>

theorem outputCompact_empty_counterexample:
  "formatOutput example_config plain_table (JArr []) (no_options\<lparr>opt_format := Some ''compact''\<rparr>)
     = ([], None)"
  by (simp add: formatOutput_def outputCompact_def no_options_def)

text \<open>
  C8, amended. For an empty input collection the table format prints the fixed notice
  \<open>No results found\<close> and no table, the compact format prints nothing, and the json
  format prints the empty array \<open>[]\<close>, pretty-printed or not.
\<close>

theorem empty_collection_rendering:
  "outputTable table_lib (JArr []) opts = ([[JStr ''No results found'']], None)
   \<and> outputCompact (JArr []) opts = ([], None)
   \<and> outputJson (JArr []) opts = ([[JStr ''[]'']], None)"
  by (simp add: outputTable_def outputCompact_def outputJson_def stringified_def
      JSON_stringify_def wrap_json_def)

theorem empty_collection_rendering_witness:
  "outputTable plain_table (JArr []) no_options = ([[JStr ''No results found'']], None)
   \<and> outputCompact (JArr []) no_options = ([], None)
   \<and> outputJson (JArr []) (no_options\<lparr>opt_pretty := Some False\<rparr>) = ([[JStr ''[]'']], None)"
  using empty_collection_rendering [of plain_table no_options]
    empty_collection_rendering [of plain_table "no_options\<lparr>opt_pretty := Some False\<rparr>"]
  by simp





end
